theory Spec2Isabelle
  imports Complex_Main
begin

section \<open>Python values and exceptions\<close>

text \<open>
  The exceptions that \<^verbatim>\<open>MDAnalysis/coordinates/base.py\<close> raises itself or lets
  escape from numpy and from dictionary lookups. \<open>ValueError\<close> carries its message.
\<close>

datatype error =
    ValueError string
  | IndexError
  | TypeError
  | KeyError string
  | AttributeError string

section \<open>numpy arrays over an explicit store\<close>

text \<open>
  A data buffer is a list of numbers (float32 in the source, exact reals here); the
  store is the list of all buffers allocated so far, a buffer's address being its
  position. An \<open>ndarray\<close> is a descriptor: the buffer it looks into, its shape, and for
  every element, in logical row-major order, the position of that element inside the
  buffer. Two descriptors with the same \<open>nd_base\<close> alias each other; numpy's strides and
  offset are the special case where the positions are an affine function of the index.
\<close>

type_synonym buffer = "real list"
type_synonym heap = "buffer list"

record ndarray =
  nd_base :: nat
  nd_shape :: "nat list"
  nd_cells :: "nat list"

datatype order = C_order | F_order

text \<open>The elements of an array in logical row-major order (\<^verbatim>\<open>a.ravel()\<close>).\<close>

definition ravel :: "heap \<Rightarrow> ndarray \<Rightarrow> real list" where
  "ravel h a = map (\<lambda>p. h ! nd_base a ! p) (nd_cells a)"

text \<open>
  A descriptor is an array of the store when its buffer is allocated, it has one cell
  per element of its shape, and every cell lies inside the buffer.
\<close>

definition array_in :: "heap \<Rightarrow> ndarray \<Rightarrow> bool" where
  "array_in h a \<longleftrightarrow>
     nd_base a < length h \<and> length (nd_cells a) = prod_list (nd_shape a)
     \<and> (\<forall>p \<in> set (nd_cells a). p < length (h ! nd_base a))"

text \<open>
  Fortran (column-major) layout: the first index varies fastest in memory. For shape
  \<open>[r, c]\<close> element \<open>(i, j)\<close> lives at position \<open>i + r * j\<close>.
\<close>

fun fcells :: "nat list \<Rightarrow> nat list" where
  "fcells [] = [0]"
| "fcells (d # ds) = map (\<lambda>(i, p). i + d * p) (List.product [0..<d] (fcells ds))"

fun layout :: "order \<Rightarrow> nat list \<Rightarrow> nat list" where
  "layout C_order sh = [0..<prod_list sh]"
| "layout F_order sh = fcells sh"

text \<open>Fill a fresh buffer so that the \<open>k\<close>-th logical element sits at position \<open>cs ! k\<close>.\<close>

definition scatter :: "nat list \<Rightarrow> real list \<Rightarrow> buffer" where
  "scatter cs vs = fold (\<lambda>(p, v) b. b[p := v]) (zip cs vs) (replicate (length vs) 0)"

definition new_array :: "order \<Rightarrow> nat list \<Rightarrow> real list \<Rightarrow> heap \<Rightarrow> ndarray \<times> heap" where
  "new_array ord sh vs h =
     (let cs = layout ord sh
      in (\<lparr>nd_base = length h, nd_shape = sh, nd_cells = cs\<rparr>, h @ [scatter cs vs]))"

text \<open>\<^verbatim>\<open>numpy.zeros(shape, order=...)\<close>; a negative dimension raises \<open>ValueError\<close>.\<close>

definition np_zeros :: "int list \<Rightarrow> order \<Rightarrow> heap \<Rightarrow> error + (ndarray \<times> heap)" where
  "np_zeros dims ord h =
     (if \<exists>d \<in> set dims. d < 0 then Inl (ValueError ''negative dimensions are not allowed'')
      else let sh = map nat dims
           in Inr (new_array ord sh (replicate (prod_list sh) 0) h))"

text \<open>\<^verbatim>\<open>a.copy(order)\<close>: a new array that owns a fresh buffer.\<close>

definition np_copy :: "order \<Rightarrow> ndarray \<Rightarrow> heap \<Rightarrow> ndarray \<times> heap" where
  "np_copy ord a h = new_array ord (nd_shape a) (ravel h a) h"

text \<open>
  \<^verbatim>\<open>numpy.array(a)\<close> of an array: always a copy. The memory order of the source is kept:
  Fortran order for a source that is Fortran-contiguous and not C-contiguous, C order
  otherwise (for a source that is neither, numpy picks the closest of the two; shape
  and contents of the copy do not depend on that choice).
\<close>

definition np_array :: "ndarray \<Rightarrow> heap \<Rightarrow> ndarray \<times> heap" where
  "np_array a h =
     (if nd_cells a = fcells (nd_shape a) \<and> nd_cells a \<noteq> [0..<prod_list (nd_shape a)]
      then np_copy F_order a h else np_copy C_order a h)"

text \<open>
  \<^verbatim>\<open>a[i]\<close> with an integer: a view of the \<open>i\<close>-th entry along the first axis; negative
  indices count from the end, anything outside raises \<open>IndexError\<close>. (On a
  one-dimensional array numpy returns the element as a scalar; it is the view of shape
  \<open>[]\<close> here.)
\<close>

definition getitem_int :: "ndarray \<Rightarrow> int \<Rightarrow> error + ndarray" where
  "getitem_int a i =
     (case nd_shape a of
        [] \<Rightarrow> Inl IndexError
      | d # ds \<Rightarrow>
          let j = (if i < 0 then i + int d else i) in
          if j < 0 \<or> int d \<le> j then Inl IndexError
          else let R = prod_list ds in
            Inr \<lparr>nd_base = nd_base a, nd_shape = ds,
                 nd_cells = take R (drop (nat j * R) (nd_cells a))\<rparr>)"

text \<open>\<^verbatim>\<open>a[:, j]\<close>: a view of column \<open>j\<close>; needs two axes and \<open>j\<close> inside the second.\<close>

definition getitem_col :: "ndarray \<Rightarrow> nat \<Rightarrow> error + ndarray" where
  "getitem_col a j =
     (case nd_shape a of
        d0 # d1 # ds \<Rightarrow>
          if d1 \<le> j then Inl IndexError
          else let R = prod_list ds in
            Inr \<lparr>nd_base = nd_base a, nd_shape = d0 # ds,
                 nd_cells = concat (map (\<lambda>i. take R (drop ((i * d1 + j) * R) (nd_cells a))) [0..<d0])\<rparr>
      | _ \<Rightarrow> Inl IndexError)"

text \<open>
  Python's \<^verbatim>\<open>slice(start, stop, step)\<close>, each part an integer or \<open>None\<close>, and
  \<^verbatim>\<open>slice.indices(len)\<close>: the clamped start and stop and the step. A zero step raises
  \<open>ValueError\<close>; no bound is ever rejected.
\<close>

datatype slice = Slice "int option" "int option" "int option"

fun slice_indices :: "slice \<Rightarrow> nat \<Rightarrow> error + (int \<times> int \<times> int)" where
  "slice_indices (Slice start stop step) len =
     (let stp = (case step of None \<Rightarrow> 1 | Some s \<Rightarrow> s) in
      if stp = 0 then Inl (ValueError ''slice step cannot be zero'')
      else
        let n = int len;
            lower = (if stp < 0 then - 1 else 0);
            upper = (if stp < 0 then n - 1 else n);
            clamp = (\<lambda>i. if i < 0 then max (i + n) lower else min i upper);
            s = (case start of None \<Rightarrow> (if stp < 0 then upper else lower) | Some i \<Rightarrow> clamp i);
            e = (case stop of None \<Rightarrow> (if stp < 0 then lower else upper) | Some i \<Rightarrow> clamp i)
        in Inr (s, e, stp))"

definition slice_len :: "int \<Rightarrow> int \<Rightarrow> int \<Rightarrow> nat" where
  "slice_len s e stp =
     (if stp < 0 then (if e < s then nat ((s - e - 1) div (- stp) + 1) else 0)
      else (if s < e then nat ((e - s - 1) div stp + 1) else 0))"

text \<open>\<^verbatim>\<open>a[start:stop:step]\<close>: basic indexing, a view of the selected rows.\<close>

definition getitem_slice :: "ndarray \<Rightarrow> slice \<Rightarrow> error + ndarray" where
  "getitem_slice a sl =
     (case nd_shape a of
        [] \<Rightarrow> Inl IndexError
      | d # ds \<Rightarrow>
          (case slice_indices sl d of
             Inl e \<Rightarrow> Inl e
           | Inr (s, e, stp) \<Rightarrow>
               let m = slice_len s e stp; R = prod_list ds in
               Inr \<lparr>nd_base = nd_base a, nd_shape = m # ds,
                    nd_cells = concat (map (\<lambda>k. take R (drop (nat (s + int k * stp) * R) (nd_cells a)))
                                        [0..<m])\<rparr>))"

text \<open>
  \<^verbatim>\<open>a[idx]\<close> with a one-dimensional integer array: advanced indexing. Every index is
  checked against the first axis (negative ones count from the end) and the selected
  rows are copied into a new C-ordered array.
\<close>

definition getitem_array :: "ndarray \<Rightarrow> int list \<Rightarrow> heap \<Rightarrow> error + (ndarray \<times> heap)" where
  "getitem_array a idx h =
     (case nd_shape a of
        [] \<Rightarrow> Inl IndexError
      | d # ds \<Rightarrow>
          if \<exists>i \<in> set idx. i < - int d \<or> int d \<le> i then Inl IndexError
          else
            let R = prod_list ds;
                rows = map (\<lambda>i. nat (if i < 0 then i + int d else i)) idx;
                vs = concat (map (\<lambda>j. map (\<lambda>p. h ! nd_base a ! p)
                                         (take R (drop (j * R) (nd_cells a)))) rows)
            in Inr (new_array C_order (length idx # ds) vs h))"

text \<open>
  \<^verbatim>\<open>numpy.take(a, indices)\<close> without an axis: picks from the flattened array into a new
  array; an index outside raises \<open>IndexError\<close>.
\<close>

definition np_take :: "ndarray \<Rightarrow> int list \<Rightarrow> heap \<Rightarrow> error + (ndarray \<times> heap)" where
  "np_take a idx h =
     (let vs = ravel h a; n = int (length vs) in
      if \<exists>i \<in> set idx. i < - n \<or> n \<le> i then Inl IndexError
      else Inr (new_array C_order [length idx]
                  (map (\<lambda>i. vs ! nat (if i < 0 then i + n else i)) idx) h))"

text \<open>
  \<^verbatim>\<open>a *= f\<close> on an array: every element of \<open>a\<close> is scaled inside its buffer, so every
  alias of the buffer sees the change.
\<close>

definition imul :: "heap \<Rightarrow> ndarray \<Rightarrow> real \<Rightarrow> heap" where
  "imul h a f = h[nd_base a := fold (\<lambda>p b. b[p := b ! p * f]) (nd_cells a) (h ! nd_base a)]"

section \<open>Timestep\<close>

text \<open>
  The attributes \<^verbatim>\<open>frame\<close>, \<^verbatim>\<open>numatoms\<close>, \<^verbatim>\<open>_pos\<close>, \<^verbatim>\<open>_unitcell\<close>, \<^verbatim>\<open>_x\<close>, \<^verbatim>\<open>_y\<close>, \<^verbatim>\<open>_z\<close>
  of a \<^verbatim>\<open>Timestep\<close> object.
\<close>

record Timestep =
  ts_frame :: int
  ts_numatoms :: int
  ts_pos :: ndarray
  ts_unitcell :: ndarray
  ts_x :: ndarray
  ts_y :: ndarray
  ts_z :: ndarray

text \<open>
  The argument of the constructor by the branch it takes: an integer, a \<^verbatim>\<open>Timestep\<close>,
  an \<^verbatim>\<open>ndarray\<close>, or anything else.
\<close>

datatype arg = PyInt int | PyTimestep Timestep | PyNdarray ndarray | PyOther

text \<open>The last three statements of \<^verbatim>\<open>__init__\<close>: the per-axis views of \<^verbatim>\<open>_pos\<close>.\<close>

definition axis_views :: "int \<Rightarrow> int \<Rightarrow> ndarray \<Rightarrow> ndarray \<Rightarrow> heap \<Rightarrow> error + (Timestep \<times> heap)" where
  "axis_views fr n uc p h =
     (case getitem_col p 0 of Inl e \<Rightarrow> Inl e | Inr x \<Rightarrow>
      case getitem_col p 1 of Inl e \<Rightarrow> Inl e | Inr y \<Rightarrow>
      case getitem_col p 2 of Inl e \<Rightarrow> Inl e | Inr z \<Rightarrow>
        Inr (\<lparr>ts_frame = fr, ts_numatoms = n, ts_pos = p, ts_unitcell = uc,
              ts_x = x, ts_y = y, ts_z = z\<rparr>, h))"

fun Timestep_init :: "arg \<Rightarrow> heap \<Rightarrow> error + (Timestep \<times> heap)" where
  "Timestep_init (PyInt n) h =
     (case np_zeros [n, 3] F_order h of Inl e \<Rightarrow> Inl e | Inr (p, h1) \<Rightarrow>
      case np_zeros [6] C_order h1 of Inl e \<Rightarrow> Inl e | Inr (uc, h2) \<Rightarrow>
        axis_views 0 n uc p h2)"
| "Timestep_init (PyTimestep t) h =
     (let (uc, h1) = np_array (ts_unitcell t) h;
          (p, h2) = np_array (ts_pos t) h1
      in axis_views (ts_frame t) (ts_numatoms t) uc p h2)"
| "Timestep_init (PyNdarray a) h =
     (if length (nd_shape a) \<noteq> 2 then Inl (ValueError ''numpy array can only have 2 dimensions'')
      else
        case np_zeros [6] C_order h of Inl e \<Rightarrow> Inl e | Inr (uc, h1) \<Rightarrow>
          let n = (if nd_shape a ! 0 = 3 then nd_shape a ! 0 else last (nd_shape a));
              (p, h2) = np_copy F_order a h1
          in axis_views 0 (int n) uc p h2)"
| "Timestep_init PyOther h = Inl (ValueError ''Cannot create an empty Timestep'')"

text \<open>
  The index of \<^verbatim>\<open>__getitem__\<close> by the branch it takes: an integer, a slice, an
  \<^verbatim>\<open>ndarray\<close> (here of integers, one-dimensional), or anything else.
\<close>

datatype index = IdxInt int | IdxSlice slice | IdxArray "int list" | IdxOther

fun Timestep_getitem :: "Timestep \<Rightarrow> index \<Rightarrow> heap \<Rightarrow> error + (ndarray \<times> heap)" where
  "Timestep_getitem self (IdxInt i) h =
     (let atoms = (if i < 0 then ts_numatoms self + i else i) in
      if atoms < 0 \<or> atoms \<ge> ts_numatoms self then Inl IndexError
      else case getitem_int (ts_pos self) atoms of Inl e \<Rightarrow> Inl e | Inr v \<Rightarrow> Inr (v, h))"
| "Timestep_getitem self (IdxSlice sl) h =
     (case getitem_slice (ts_pos self) sl of Inl e \<Rightarrow> Inl e | Inr v \<Rightarrow> Inr (v, h))"
| "Timestep_getitem self (IdxArray idx) h = getitem_array (ts_pos self) idx h"
| "Timestep_getitem self IdxOther h = Inl TypeError"

definition Timestep_len :: "Timestep \<Rightarrow> int" where
  "Timestep_len self = ts_numatoms self"





definition Timestep_copy :: "Timestep \<Rightarrow> heap \<Rightarrow> error + (Timestep \<times> heap)" where
  "Timestep_copy self h = Timestep_init (PyTimestep self) h"

definition Timestep_dimensions :: "Timestep \<Rightarrow> heap \<Rightarrow> error + (ndarray \<times> heap)" where
  "Timestep_dimensions self h = np_take (ts_unitcell self) [0, 2, 5, 1, 3, 4] h"

text \<open>
  The state that \<^verbatim>\<open>__init__\<close> establishes: \<^verbatim>\<open>_pos\<close> and \<^verbatim>\<open>_unitcell\<close> are arrays of the
  store and \<^verbatim>\<open>_x\<close>, \<^verbatim>\<open>_y\<close>, \<^verbatim>\<open>_z\<close> are the column views of \<^verbatim>\<open>_pos\<close>. The arrays of an
  object, and what they hold in a store.
\<close>

definition Timestep_in :: "heap \<Rightarrow> Timestep \<Rightarrow> bool" where
  "Timestep_in h self \<longleftrightarrow>
     array_in h (ts_pos self) \<and> array_in h (ts_unitcell self)
     \<and> getitem_col (ts_pos self) 0 = Inr (ts_x self)
     \<and> getitem_col (ts_pos self) 1 = Inr (ts_y self)
     \<and> getitem_col (ts_pos self) 2 = Inr (ts_z self)"

definition Timestep_arrays :: "Timestep \<Rightarrow> ndarray list" where
  "Timestep_arrays self = [ts_pos self, ts_unitcell self, ts_x self, ts_y self, ts_z self]"

definition Timestep_values :: "heap \<Rightarrow> Timestep \<Rightarrow> real list list" where
  "Timestep_values h self = map (ravel h) (Timestep_arrays self)"

section \<open>IObase\<close>

text \<open>
  A unit is a string or \<^verbatim>\<open>None\<close>. The argument of a conversion is a float, an array or
  anything else; \<^verbatim>\<open>x *= f\<close> returns the scaled float, scales an array inside its buffer
  and returns the same array, and raises \<^verbatim>\<open>TypeError\<close> otherwise.
\<close>

type_synonym unit_name = "string option"

datatype pyval = Float real | Array ndarray | NoneVal

fun imul_value :: "pyval \<Rightarrow> real \<Rightarrow> heap \<Rightarrow> error + (pyval \<times> heap)" where
  "imul_value (Float t) f h = Inr (Float (t * f), h)"
| "imul_value (Array a) f h = Inr (Array a, imul h a f)"
| "imul_value NoneVal f h = Inl TypeError"

text \<open>
  The module \<^verbatim>\<open>MDAnalysis.core\<close> is not part of the sources at hand: its dictionary
  \<^verbatim>\<open>flags\<close> and the function \<^verbatim>\<open>units.get_conversion_factor(quantity, u1, u2)\<close>, the factor
  that converts from unit \<open>u1\<close> to unit \<open>u2\<close>, are parameters of the model.
\<close>

record core =
  flags :: "string \<rightharpoonup> unit_name"
  get_conversion_factor :: "string \<Rightarrow> unit_name \<Rightarrow> unit_name \<Rightarrow> error + real"

text \<open>The class attribute \<^verbatim>\<open>units\<close>, overridden by every reader and writer.\<close>

record IObase =
  units :: "string \<rightharpoonup> unit_name"

text \<open>\<^verbatim>\<open>d[k]\<close> on a dictionary.\<close>

definition lookup :: "(string \<rightharpoonup> 'v) \<Rightarrow> string \<Rightarrow> error + 'v" where
  "lookup d k = (case d k of None \<Rightarrow> Inl (KeyError k) | Some v \<Rightarrow> Inr v)"

type_synonym py_method = "IObase \<Rightarrow> core \<Rightarrow> pyval \<Rightarrow> heap \<Rightarrow> error + (pyval \<times> heap)"

text \<open>The four \<^verbatim>\<open>def\<close> statements of the class body, lines 101, 107, 113 and 119.\<close>

definition convert_pos_from_native :: py_method where
  "convert_pos_from_native self env x h =
     (case lookup (units self) ''length'' of Inl e \<Rightarrow> Inl e | Inr u \<Rightarrow>
      case lookup (flags env) ''length_unit'' of Inl e \<Rightarrow> Inl e | Inr b \<Rightarrow>
      case get_conversion_factor env ''length'' u b of Inl e \<Rightarrow> Inl e | Inr f \<Rightarrow>
        imul_value x f h)"

definition convert_time_from_native_l107 :: py_method where
  "convert_time_from_native_l107 self env t h =
     (case lookup (units self) ''time'' of Inl e \<Rightarrow> Inl e | Inr u \<Rightarrow>
      case lookup (flags env) ''time_unit'' of Inl e \<Rightarrow> Inl e | Inr b \<Rightarrow>
      case get_conversion_factor env ''time'' u b of Inl e \<Rightarrow> Inl e | Inr f \<Rightarrow>
        imul_value t f h)"

definition convert_pos_to_native :: py_method where
  "convert_pos_to_native self env x h =
     (case lookup (flags env) ''length_unit'' of Inl e \<Rightarrow> Inl e | Inr b \<Rightarrow>
      case lookup (units self) ''length'' of Inl e \<Rightarrow> Inl e | Inr u \<Rightarrow>
      case get_conversion_factor env ''length'' b u of Inl e \<Rightarrow> Inl e | Inr f \<Rightarrow>
        imul_value x f h)"

definition convert_time_from_native_l119 :: py_method where
  "convert_time_from_native_l119 self env t h =
     (case lookup (flags env) ''time_unit'' of Inl e \<Rightarrow> Inl e | Inr b \<Rightarrow>
      case lookup (units self) ''time'' of Inl e \<Rightarrow> Inl e | Inr u \<Rightarrow>
      case get_conversion_factor env ''time'' b u of Inl e \<Rightarrow> Inl e | Inr f \<Rightarrow>
        imul_value t f h)"

text \<open>
  A class body runs top to bottom and every \<^verbatim>\<open>def\<close> binds its name in the class
  namespace, replacing an earlier binding of the same name. \<open>IObase_body\<close> lists the
  conversion methods in source order (\<^verbatim>\<open>format\<close>, \<^verbatim>\<open>units\<close> and the one-argument
  \<^verbatim>\<open>close_trajectory\<close> are bound there too); \<open>IObase_call\<close> is \<^verbatim>\<open>getattr(self, name)(x)\<close>.
\<close>

definition IObase_body :: "(string \<times> py_method) list" where
  "IObase_body =
     [(''convert_pos_from_native'', convert_pos_from_native),
      (''convert_time_from_native'', convert_time_from_native_l107),
      (''convert_pos_to_native'', convert_pos_to_native),
      (''convert_time_from_native'', convert_time_from_native_l119)]"

definition class_namespace :: "(string \<times> 'a) list \<Rightarrow> (string \<rightharpoonup> 'a)" where
  "class_namespace body = fold (\<lambda>(name, v) ns. ns(name \<mapsto> v)) body Map.empty"

definition IObase_call :: "string \<Rightarrow> py_method" where
  "IObase_call name self env x h =
     (case class_namespace IObase_body name of
        None \<Rightarrow> Inl (AttributeError name)
      | Some m \<Rightarrow> m self env x h)"

section \<open>Example objects\<close>

text \<open>
  A frame of two atoms at \<open>(1, 2, 3)\<close> and \<open>(4, 5, 6)\<close>, stored column-major in buffer 0,
  with its unit cell in buffer 1.
\<close>

abbreviation example_heap :: heap where
  "example_heap \<equiv> [[1, 4, 2, 5, 3, 6], [10, 90, 20, 90, 90, 30]]"

abbreviation example_frame :: Timestep where
  "example_frame \<equiv>
     \<lparr>ts_frame = 0, ts_numatoms = 2,
      ts_pos = \<lparr>nd_base = 0, nd_shape = [2, 3], nd_cells = [0, 2, 4, 1, 3, 5]\<rparr>,
      ts_unitcell = \<lparr>nd_base = 1, nd_shape = [6], nd_cells = [0, 1, 2, 3, 4, 5]\<rparr>,
      ts_x = \<lparr>nd_base = 0, nd_shape = [2], nd_cells = [0, 1]\<rparr>,
      ts_y = \<lparr>nd_base = 0, nd_shape = [2], nd_cells = [2, 3]\<rparr>,
      ts_z = \<lparr>nd_base = 0, nd_shape = [2], nd_cells = [4, 5]\<rparr>\<rparr>"

text \<open>
  The object that \<^verbatim>\<open>Timestep\<close> builds from the \<open>(2, 3)\<close> array \<open>[[1, 2, 3], [4, 5, 6]]\<close> in
  buffer 0: the unit cell in buffer 1, the positions column-major in buffer 2, and an
  atom count of three for a position array of two rows.
\<close>

abbreviation matrix_buffer :: ndarray where
  "matrix_buffer \<equiv> \<lparr>nd_base = 0, nd_shape = [2, 3], nd_cells = [0, 1, 2, 3, 4, 5]\<rparr>"

abbreviation matrix_heap :: heap where
  "matrix_heap \<equiv> [[1, 2, 3, 4, 5, 6], [0, 0, 0, 0, 0, 0], [1, 4, 2, 5, 3, 6]]"

abbreviation matrix_frame :: Timestep where
  "matrix_frame \<equiv>
     \<lparr>ts_frame = 0, ts_numatoms = 3,
      ts_pos = \<lparr>nd_base = 2, nd_shape = [2, 3], nd_cells = [0, 2, 4, 1, 3, 5]\<rparr>,
      ts_unitcell = \<lparr>nd_base = 1, nd_shape = [6], nd_cells = [0, 1, 2, 3, 4, 5]\<rparr>,
      ts_x = \<lparr>nd_base = 2, nd_shape = [2], nd_cells = [0, 1]\<rparr>,
      ts_y = \<lparr>nd_base = 2, nd_shape = [2], nd_cells = [2, 3]\<rparr>,
      ts_z = \<lparr>nd_base = 2, nd_shape = [2], nd_cells = [4, 5]\<rparr>\<rparr>"

text \<open>
  A reader whose file stores nanoseconds and nanometres, in a process configured for
  picoseconds and Angstrom, with the four conversion factors between them.
\<close>

abbreviation example_factor :: "string \<Rightarrow> unit_name \<Rightarrow> unit_name \<Rightarrow> error + real" where
  "example_factor \<equiv> \<lambda>q u1 u2.
     if q = ''time'' \<and> u1 = Some ''ns'' \<and> u2 = Some ''ps'' then Inr 1000
     else if q = ''time'' \<and> u1 = Some ''ps'' \<and> u2 = Some ''ns'' then Inr (1 / 1000)
     else if q = ''length'' \<and> u1 = Some ''nm'' \<and> u2 = Some ''Angstrom'' then Inr 10
     else if q = ''length'' \<and> u1 = Some ''Angstrom'' \<and> u2 = Some ''nm'' then Inr (1 / 10)
     else Inl (ValueError ''no conversion'')"

abbreviation example_core :: core where
  "example_core \<equiv>
     \<lparr>flags = [''time_unit'' \<mapsto> Some ''ps'', ''length_unit'' \<mapsto> Some ''Angstrom''],
      get_conversion_factor = example_factor\<rparr>"

abbreviation example_reader :: IObase where
  "example_reader \<equiv> \<lparr>units = [''time'' \<mapsto> Some ''ns'', ''length'' \<mapsto> Some ''nm'']\<rparr>"

section \<open>Facts about the array model\<close>

lemma fcells_length: "length (fcells sh) = prod_list sh"
  by (induction sh) simp_all

lemma fcells_bound: "p \<in> set (fcells sh) \<Longrightarrow> p < prod_list sh"
proof (induction sh arbitrary: p)
  case Nil
  then show ?case by simp
next
  case (Cons d ds)
  then obtain i q where iq: "i < d" "q \<in> set (fcells ds)" "p = i + d * q"
    by auto
  then have "q < prod_list ds" using Cons.IH by blast
  then have "Suc q \<le> prod_list ds" by simp
  then have "d * Suc q \<le> d * prod_list ds" by (rule mult_le_mono2)
  with iq show ?case by simp
qed

lemma fcells_distinct: "distinct (fcells sh)"
proof (induction sh)
  case Nil
  then show ?case by simp
next
  case (Cons d ds)
  have inj: "inj_on (\<lambda>(i, p). i + d * p) (set (List.product [0..<d] (fcells ds)))"
  proof (rule inj_onI, clarsimp)
    fix i p i' p'
    assume a: "i < d" "i' < d" "i + d * p = i' + d * p'"
    have "(i + d * p) mod d = i" using a(1) by simp
    moreover have "(i' + d * p') mod d = i'" using a(2) by simp
    ultimately have ii: "i = i'" using a(3) by metis
    with a show "i = i' \<and> p = p'" by simp
  qed
  show ?case using Cons inj by (simp add: distinct_map distinct_product)
qed

lemma fold_update_other:
  "p \<notin> fst ` set ps \<Longrightarrow> fold (\<lambda>(p, v) b. b[p := v]) ps b ! p = b ! p"
  by (induction ps arbitrary: b) (auto split: prod.splits)

lemma fold_update_length:
  "length (fold (\<lambda>(p, v) b. b[p := v]) ps b) = length b"
  by (induction ps arbitrary: b) (auto split: prod.splits)

lemma fold_update_hit:
  "distinct (map fst ps) \<Longrightarrow> (p, v) \<in> set ps \<Longrightarrow> p < length b
   \<Longrightarrow> fold (\<lambda>(p, v) b. b[p := v]) ps b ! p = v"
proof (induction ps arbitrary: b)
  case Nil
  then show ?case by simp
next
  case (Cons a ps)
  obtain q w where a: "a = (q, w)" by (cases a)
  show ?case
  proof (cases "(p, v) = a")
    case True
    with Cons.prems a have "p \<notin> fst ` set ps" by auto
    then have "fold (\<lambda>(p, v) b. b[p := v]) ps (b[p := v]) ! p = b[p := v] ! p"
      by (rule fold_update_other)
    with True [symmetric] Cons.prems show ?thesis by simp
  next
    case False
    with Cons.prems have "(p, v) \<in> set ps" "distinct (map fst ps)" by auto
    with Cons.IH [of "b[q := w]"] Cons.prems a show ?thesis by simp
  qed
qed

lemma scatter_read:
  assumes "distinct cs" "length cs = length vs" "\<forall>p \<in> set cs. p < length vs"
  shows "map (\<lambda>p. scatter cs vs ! p) cs = vs"
proof (rule nth_equalityI)
  show "length (map (\<lambda>p. scatter cs vs ! p) cs) = length vs" using assms by simp
next
  fix k assume "k < length (map (\<lambda>p. scatter cs vs ! p) cs)"
  then have k: "k < length cs" by simp
  with assms have m: "(cs ! k, vs ! k) \<in> set (zip cs vs)"
    by (metis in_set_zip fst_conv snd_conv)
  have d: "distinct (map fst (zip cs vs))" using assms by simp
  have b: "cs ! k < length (replicate (length vs) (0::real))" using assms k by simp
  have "scatter cs vs ! (cs ! k) = vs ! k"
    unfolding scatter_def using d m b by (rule fold_update_hit)
  with k show "map (\<lambda>p. scatter cs vs ! p) cs ! k = vs ! k" by simp
qed

lemma layout_length: "length (layout ord sh) = prod_list sh"
  by (cases ord) (simp_all add: fcells_length)

lemma layout_distinct: "distinct (layout ord sh)"
  by (cases ord) (simp_all add: fcells_distinct)

lemma layout_bound: "p \<in> set (layout ord sh) \<Longrightarrow> p < prod_list sh"
  by (cases ord) (simp_all add: fcells_bound)

lemma new_array_ravel:
  assumes "length vs = prod_list sh" "new_array ord sh vs h = (a, h')"
  shows "ravel h' a = vs"
proof -
  from assms(2) have a: "a = \<lparr>nd_base = length h, nd_shape = sh, nd_cells = layout ord sh\<rparr>"
    and h': "h' = h @ [scatter (layout ord sh) vs]"
    by (simp_all add: new_array_def Let_def)
  have "map (\<lambda>p. scatter (layout ord sh) vs ! p) (layout ord sh) = vs"
    using assms(1) by (intro scatter_read) (simp_all add: layout_length layout_distinct layout_bound)
  then show ?thesis by (simp add: ravel_def a h')
qed

lemma ravel_append: "nd_base a < length h \<Longrightarrow> ravel (h @ bs) a = ravel h a"
  by (simp add: ravel_def nth_append)

lemma new_array_props:
  assumes "new_array ord sh vs h = (a, h')"
  shows "nd_base a = length h" "nd_shape a = sh" "nd_cells a = layout ord sh"
    "h' = h @ [scatter (layout ord sh) vs]" "length h' = Suc (length h)"
  using assms by (auto simp: new_array_def Let_def)

lemma np_zeros_Inr:
  assumes "\<forall>d \<in> set dims. 0 \<le> d"
  shows "np_zeros dims ord h =
    Inr (new_array ord (map nat dims) (replicate (prod_list (map nat dims)) 0) h)"
  using assms by (auto simp: np_zeros_def Let_def)

lemma axis_views_Inr:
  assumes "nd_shape p = r # c # ds" "3 \<le> c"
  shows "\<exists>x y z. axis_views fr n uc p h =
      Inr (\<lparr>ts_frame = fr, ts_numatoms = n, ts_pos = p, ts_unitcell = uc,
            ts_x = x, ts_y = y, ts_z = z\<rparr>, h)
      \<and> getitem_col p 0 = Inr x \<and> getitem_col p 1 = Inr y \<and> getitem_col p 2 = Inr z"
  using assms by (simp add: axis_views_def getitem_col_def Let_def)

lemma product_singleton: "List.product xs [y] = map (\<lambda>x. (x, y)) xs"
  by (induction xs) simp_all

lemma fcells_1d: "fcells [c] = [0..<c]"
  by (simp add: product_singleton comp_def map_idI)

lemma fcells_2d: "fcells [r, c] = map (\<lambda>(i, j). i + r * j) (List.product [0..<r] [0..<c])"
  using fcells_1d [of c] by simp

lemma Timestep_init_ndarray:
  assumes "nd_shape a = [r, c]"
  shows "Timestep_init (PyNdarray a) h =
    (let (uc, h1) = new_array C_order [6] (replicate 6 0) h;
         (p, h2) = np_copy F_order a h1
     in axis_views 0 (int (if r = 3 then r else c)) uc p h2)"
  using assms by (simp add: np_zeros_Inr split: prod.splits)

lemma np_copy_props:
  assumes "np_copy ord a h = (p, h')" "length (nd_cells a) = prod_list (nd_shape a)"
  shows "nd_base p = length h" "nd_shape p = nd_shape a" "nd_cells p = layout ord (nd_shape a)"
    "length h' = Suc (length h)" "ravel h' p = ravel h a"
    "h' = h @ [scatter (layout ord (nd_shape a)) (ravel h a)]"
proof -
  from assms(1) have n: "new_array ord (nd_shape a) (ravel h a) h = (p, h')"
    by (simp add: np_copy_def)
  show "nd_base p = length h" "nd_shape p = nd_shape a" "nd_cells p = layout ord (nd_shape a)"
    "length h' = Suc (length h)" "h' = h @ [scatter (layout ord (nd_shape a)) (ravel h a)]"
    using new_array_props [OF n] by simp_all
  show "ravel h' p = ravel h a"
    using n assms(2) by (intro new_array_ravel [where sh = "nd_shape a"]) (simp_all add: ravel_def)
qed

lemma Timestep_init_ndarray_Inr:
  assumes a: "array_in h buf \<and> nd_shape buf = [r, c] \<and> 3 \<le> c"
  shows "\<exists>ts h'. Timestep_init (PyNdarray buf) h = Inr (ts, h')
         \<and> length h \<le> nd_base (ts_pos ts)
         \<and> nd_shape (ts_pos ts) = [r, c]
         \<and> nd_cells (ts_pos ts) = map (\<lambda>(i, j). i + r * j) (List.product [0..<r] [0..<c])
         \<and> ravel h' (ts_pos ts) = ravel h buf"
proof -
  obtain uc h1 where uc: "new_array C_order [6] (replicate 6 0) h = (uc, h1)"
    by (cases "new_array C_order [6] (replicate 6 0) h")
  obtain p h2 where p: "np_copy F_order buf h1 = (p, h2)"
    by (cases "np_copy F_order buf h1")
  have s: "nd_shape buf = [r, c]" using a by simp
  have wf: "length (nd_cells buf) = prod_list (nd_shape buf)" using a by (simp add: array_in_def)
  have sh: "nd_shape p = [r, c]" using np_copy_props(2) [OF p wf] a by simp
  obtain x y z where
    v: "axis_views 0 (int (if r = 3 then r else c)) uc p h2 =
      Inr (\<lparr>ts_frame = 0, ts_numatoms = int (if r = 3 then r else c), ts_pos = p,
            ts_unitcell = uc, ts_x = x, ts_y = y, ts_z = z\<rparr>, h2)"
    using axis_views_Inr [OF sh] a by fastforce
  have init: "Timestep_init (PyNdarray buf) h =
      Inr (\<lparr>ts_frame = 0, ts_numatoms = int (if r = 3 then r else c), ts_pos = p,
            ts_unitcell = uc, ts_x = x, ts_y = y, ts_z = z\<rparr>, h2)"
    unfolding Timestep_init_ndarray [OF s] using uc p v by simp
  have len1: "length h1 = Suc (length h)" using uc by (rule new_array_props)
  have base: "length h \<le> nd_base p" using np_copy_props(1) [OF p wf] len1 by simp
  have cells: "nd_cells p = map (\<lambda>(i, j). i + r * j) (List.product [0..<r] [0..<c])"
    using np_copy_props(3) [OF p wf] a by (simp add: fcells_2d del: fcells.simps)
  have "ravel h1 buf = ravel h buf"
    using new_array_props(4) [OF uc] a by (simp add: ravel_append array_in_def)
  have rav: "ravel h2 p = ravel h1 buf" using np_copy_props(5) [OF p wf] .
  show ?thesis
    using init base sh cells rav \<open>ravel h1 buf = ravel h buf\<close> by simp
qed

section \<open>Facts about indexing and iteration\<close>

lemma matrix_frame_init:
  "Timestep_init (PyNdarray matrix_buffer) [[1, 2, 3, 4, 5, 6]] = Inr (matrix_frame, matrix_heap)"
  by (simp add: np_zeros_def new_array_def np_copy_def axis_views_def getitem_col_def scatter_def
      ravel_def Let_def fcells_2d upt_rec eval_nat_numeral)


lemma row_length:
  assumes "length cs = r * R" "k < r"
  shows "length (take R (drop (k * R) cs)) = R"
proof -
  have "Suc k * R \<le> r * R" using assms(2) by (intro mult_le_mono1) simp
  then show ?thesis using assms(1) by simp
qed




section \<open>Facts about slices and index arrays\<close>

lemma int_div_le_dividend: "0 \<le> (a::int) \<Longrightarrow> a div b \<le> a"
  by (cases "a = 0") (simp_all add: int_div_le_self)

lemma slice_len_le:
  assumes "slice_indices sl r = Inr (s, e, stp)"
  shows "slice_len s e stp \<le> r"
proof -
  obtain start stop step where sl: "sl = Slice start stop step" by (cases sl)
  have stp: "stp \<noteq> 0" using assms by (auto simp: sl Let_def split: if_splits)
  show ?thesis
  proof (cases "stp < 0")
    case True
    then have b: "- 1 \<le> e" "s \<le> int r - 1"
      using assms by (auto simp: sl Let_def split: if_splits option.splits)
    show ?thesis
    proof (cases "e < s")
      case lt: True
      then have "(s - e - 1) div (- stp) \<le> s - e - 1"
        using True by (intro int_div_le_dividend) simp_all
      then show ?thesis using True lt b by (simp add: slice_len_def)
    next
      case False
      then show ?thesis using True by (simp add: slice_len_def)
    qed
  next
    case False
    then have pos: "0 < stp" using stp by simp
    then have b: "0 \<le> s" "e \<le> int r"
      using assms by (auto simp: sl Let_def split: if_splits option.splits)
    show ?thesis
    proof (cases "s < e")
      case lt: True
      then have "(e - s - 1) div stp \<le> e - s - 1"
        using pos by (intro int_div_le_dividend) simp_all
      then show ?thesis using pos lt b by (simp add: slice_len_def)
    next
      case False
      then show ?thesis using pos by (simp add: slice_len_def)
    qed
  qed
qed

lemma slice_indices_Inr:
  assumes "step \<noteq> Some 0"
  shows "\<exists>s e stp. slice_indices (Slice start stop step) r = Inr (s, e, stp)"
proof -
  have "(case step of None \<Rightarrow> 1 | Some s \<Rightarrow> s) \<noteq> (0::int)"
    using assms by (cases step) simp_all
  then show ?thesis by (simp add: Let_def)
qed

lemma slice_indices_error:
  "slice_indices sl r \<noteq> Inl IndexError"
  by (cases sl) (simp add: Let_def)

lemma getitem_array_cases:
  assumes "nd_shape a = r # ds"
  shows "(\<exists>i \<in> set idx. i < - int r \<or> int r \<le> i) \<Longrightarrow> getitem_array a idx h = Inl IndexError"
    and "\<not> (\<exists>i \<in> set idx. i < - int r \<or> int r \<le> i) \<Longrightarrow>
      \<exists>v h'. getitem_array a idx h = Inr (v, h') \<and> nd_base v = length h
        \<and> nd_shape v = length idx # ds \<and> length h' = Suc (length h)"
  using assms by (auto simp: getitem_array_def new_array_def Let_def)

lemma slice_indices_bounds:
  assumes "slice_indices sl r = Inr (s, e, stp)"
  shows "stp \<noteq> 0" "0 < stp \<Longrightarrow> 0 \<le> s \<and> e \<le> int r" "stp < 0 \<Longrightarrow> - 1 \<le> e \<and> s \<le> int r - 1"
proof -
  obtain start stop step where sl: "sl = Slice start stop step" by (cases sl)
  show "stp \<noteq> 0" using assms by (auto simp: sl Let_def split: if_splits)
  show "0 < stp \<Longrightarrow> 0 \<le> s \<and> e \<le> int r"
    using assms by (auto simp: sl Let_def split: if_splits option.splits)
  show "stp < 0 \<Longrightarrow> - 1 \<le> e \<and> s \<le> int r - 1"
    using assms by (auto simp: sl Let_def split: if_splits option.splits)
qed

lemma int_div_mult_le:
  fixes a b :: int
  assumes "0 < b"
  shows "a div b * b \<le> a"
proof -
  have "a div b * b + a mod b = a" by simp
  moreover have "0 \<le> a mod b" using assms by simp
  ultimately show ?thesis by linarith
qed

lemma slice_rows_in_range:
  assumes si: "slice_indices sl r = Inr (s, e, stp)" and k: "k < slice_len s e stp"
  shows "0 \<le> s + int k * stp \<and> s + int k * stp < int r"
proof (cases "0 < stp")
  case True
  then have b: "0 \<le> s" "e \<le> int r" using slice_indices_bounds(2) [OF si] by simp_all
  have lt: "s < e" using k True by (auto simp: slice_len_def split: if_splits)
  have "int k \<le> (e - s - 1) div stp" using k True lt by (simp add: slice_len_def)
  then have "int k * stp \<le> (e - s - 1) div stp * stp"
    using True by (intro mult_right_mono) simp_all
  also have "\<dots> \<le> e - s - 1" using True by (rule int_div_mult_le)
  finally have "s + int k * stp \<le> e - 1" by simp
  moreover have "0 \<le> int k * stp" using True by simp
  ultimately show ?thesis using b by simp
next
  case False
  then have neg: "stp < 0" using slice_indices_bounds(1) [OF si] by simp
  then have b: "- 1 \<le> e" "s \<le> int r - 1" using slice_indices_bounds(3) [OF si] by simp_all
  have lt: "e < s" using k neg by (auto simp: slice_len_def split: if_splits)
  have "int k \<le> (s - e - 1) div (- stp)" using k neg lt by (simp add: slice_len_def)
  then have "int k * (- stp) \<le> (s - e - 1) div (- stp) * (- stp)"
    using neg by (intro mult_right_mono) simp_all
  also have "\<dots> \<le> s - e - 1" using neg by (intro int_div_mult_le) simp
  finally have "e + 1 \<le> s + int k * stp" by simp
  moreover have "int k * stp \<le> 0" using neg by (simp add: mult_nonneg_nonpos)
  ultimately show ?thesis using b by simp
qed

lemma ravel_rows:
  "ravel h \<lparr>nd_base = b, nd_shape = sh,
            nd_cells = concat (map (\<lambda>k. take R (drop (g k * R) cs)) ks)\<rparr>
   = concat (map (\<lambda>k. take R (drop (g k * R) (map (\<lambda>p. h ! b ! p) cs))) ks)"
  by (simp add: ravel_def map_concat comp_def take_map drop_map)

lemma getitem_slice_rows:
  assumes "nd_shape a = r # ds" "slice_indices sl r = Inr (s, e, stp)"
  shows "\<exists>v. getitem_slice a sl = Inr v \<and> nd_base v = nd_base a
    \<and> nd_shape v = slice_len s e stp # ds \<and> set (nd_cells v) \<subseteq> set (nd_cells a)
    \<and> (\<forall>h. ravel h v = concat (map (\<lambda>k. take (prod_list ds)
            (drop (nat (s + int k * stp) * prod_list ds) (ravel h a))) [0..<slice_len s e stp]))"
proof -
  define v where "v = \<lparr>nd_base = nd_base a, nd_shape = slice_len s e stp # ds,
     nd_cells = concat (map (\<lambda>k. take (prod_list ds)
        (drop (nat (s + int k * stp) * prod_list ds) (nd_cells a))) [0..<slice_len s e stp])\<rparr>"
  have g: "getitem_slice a sl = Inr v"
    using assms by (simp add: getitem_slice_def Let_def v_def)
  have sub: "set (nd_cells v) \<subseteq> set (nd_cells a)"
    by (auto simp: v_def dest: in_set_takeD in_set_dropD)
  have rv: "\<forall>h. ravel h v = concat (map (\<lambda>k. take (prod_list ds)
            (drop (nat (s + int k * stp) * prod_list ds) (ravel h a))) [0..<slice_len s e stp])"
    unfolding v_def ravel_rows by (simp add: ravel_def)
  show ?thesis using g sub rv by (simp add: v_def)
qed

lemma length_concat_rows:
  "\<forall>x \<in> set xs. length (f x) = R \<Longrightarrow> length (concat (map f xs)) = length xs * R"
  by (induction xs) simp_all

lemma getitem_array_copy:
  assumes ok: "array_in h a" and sh: "nd_shape a = r # ds"
    and rng: "\<not> (\<exists>i \<in> set idx. i < - int r \<or> int r \<le> i)"
  shows "\<exists>v b. getitem_array a idx h = Inr (v, h @ [b]) \<and> nd_base v = length h
    \<and> nd_shape v = length idx # ds
    \<and> ravel (h @ [b]) v = concat (map (\<lambda>i. take (prod_list ds)
          (drop (nat (if i < 0 then i + int r else i) * prod_list ds) (ravel h a))) idx)"
proof -
  define R where "R = prod_list ds"
  define row where "row = (\<lambda>i. nat (if i < 0 then i + int r else i))"
  define vs where "vs = concat (map (\<lambda>i. take R (drop (row i * R) (ravel h a))) idx)"
  obtain v h' where n: "new_array C_order (length idx # ds) vs h = (v, h')"
    by (cases "new_array C_order (length idx # ds) vs h")
  have len: "length (ravel h a) = r * R"
    using ok sh by (simp add: array_in_def ravel_def R_def)
  have "\<forall>i \<in> set idx. length (take R (drop (row i * R) (ravel h a))) = R"
  proof
    fix i assume "i \<in> set idx"
    then have "row i < r" using rng by (auto simp: row_def)
    with len show "length (take R (drop (row i * R) (ravel h a))) = R" by (rule row_length)
  qed
  then have lvs: "length vs = prod_list (length idx # ds)"
    unfolding vs_def by (simp add: length_concat_rows R_def)
  have "vs = concat (map (\<lambda>j. map (\<lambda>p. h ! nd_base a ! p) (take R (drop (j * R) (nd_cells a))))
      (map row idx))"
    by (simp add: vs_def ravel_def comp_def take_map drop_map)
  then have g: "getitem_array a idx h = Inr (v, h')"
    using sh rng n by (simp add: getitem_array_def Let_def R_def row_def)
  have "ravel h' v = vs" using lvs n by (rule new_array_ravel)
  moreover have "nd_base v = length h" "nd_shape v = length idx # ds"
    "h' = h @ [scatter (layout C_order (length idx # ds)) vs]"
    using new_array_props [OF n] by simp_all
  ultimately show ?thesis using g by (auto simp: vs_def R_def row_def)
qed

section \<open>Facts about copies and aliasing\<close>

lemma np_array_props:
  assumes "np_array a h = (p, h')" "length (nd_cells a) = prod_list (nd_shape a)"
  shows "nd_base p = length h" "nd_shape p = nd_shape a"
    "length h' = Suc (length h)" "ravel h' p = ravel h a" "\<exists>b. h' = h @ [b]"
proof -
  obtain ord where c: "np_copy ord a h = (p, h')"
    using assms(1) by (auto simp: np_array_def split: if_splits)
  show "nd_base p = length h" "nd_shape p = nd_shape a"
    "length h' = Suc (length h)" "ravel h' p = ravel h a"
    using np_copy_props [OF c assms(2)] by simp_all
  show "\<exists>b. h' = h @ [b]" using np_copy_props(6) [OF c assms(2)] by blast
qed

lemma getitem_col_Inr:
  assumes "getitem_col a j = Inr v"
  shows "nd_base v = nd_base a" "\<exists>d0 d1 ds. nd_shape a = d0 # d1 # ds \<and> j < d1"
  using assms by (auto simp: getitem_col_def Let_def split: list.splits if_splits)

lemma ravel_update_other: "b \<noteq> nd_base a \<Longrightarrow> ravel (h[b := d]) a = ravel h a"
  by (simp add: ravel_def)

lemma Timestep_in_bases:
  assumes "Timestep_in h f" "a \<in> set (Timestep_arrays f)"
  shows "nd_base a < length h"
  using assms getitem_col_Inr(1) [of "ts_pos f"]
  by (auto simp: Timestep_in_def Timestep_arrays_def array_in_def)

lemma Timestep_values_append:
  assumes "Timestep_in h f"
  shows "Timestep_values (h @ bs) f = Timestep_values h f"
  using Timestep_in_bases [OF assms] by (simp add: Timestep_values_def ravel_append)

lemma Timestep_values_update:
  assumes "\<forall>a \<in> set (Timestep_arrays f). nd_base a \<noteq> b"
  shows "Timestep_values (h[b := d]) f = Timestep_values h f"
  using assms by (auto simp: Timestep_values_def ravel_update_other)

section \<open>What the constructors establish\<close>

text \<open>
  Each successful branch of \<^verbatim>\<open>__init__\<close> leaves the new object with its arrays in the
  store and \<^verbatim>\<open>_x\<close>, \<^verbatim>\<open>_y\<close>, \<^verbatim>\<open>_z\<close> as the column views of \<^verbatim>\<open>_pos\<close>.
\<close>

lemma scatter_length: "length (scatter cs vs) = length vs"
  by (simp add: scatter_def fold_update_length)

lemma new_array_in:
  assumes "length vs = prod_list sh" "new_array ord sh vs h = (a, h')"
  shows "array_in h' a"
  using assms layout_bound [of _ ord sh]
  by (auto simp: new_array_def Let_def array_in_def layout_length scatter_length)

lemma array_in_append: "array_in h a \<Longrightarrow> array_in (h @ bs) a"
  by (simp add: array_in_def nth_append)

lemma np_copy_in:
  assumes "np_copy ord a h = (p, h')" "array_in h a"
  shows "array_in h' p" "\<exists>b. h' = h @ [b]"
proof -
  have n: "new_array ord (nd_shape a) (ravel h a) h = (p, h')"
    using assms(1) by (simp add: np_copy_def)
  have "length (ravel h a) = prod_list (nd_shape a)"
    using assms(2) by (simp add: ravel_def array_in_def)
  then show "array_in h' p" using n by (rule new_array_in)
  show "\<exists>b. h' = h @ [b]" using new_array_props(4) [OF n] by blast
qed

lemma np_array_in:
  assumes "np_array a h = (p, h')" "array_in h a"
  shows "array_in h' p" "\<exists>b. h' = h @ [b]"
proof -
  obtain ord where c: "np_copy ord a h = (p, h')"
    using assms(1) by (auto simp: np_array_def split: if_splits)
  show "array_in h' p" "\<exists>b. h' = h @ [b]" using np_copy_in [OF c assms(2)] by simp_all
qed

lemma axis_views_in:
  assumes "axis_views fr n uc p h = Inr (ts, h')" "array_in h p" "array_in h uc"
  shows "Timestep_in h' ts"
  using assms by (auto simp: axis_views_def Timestep_in_def split: sum.splits)

lemma Timestep_init_int_in:
  assumes "Timestep_init (PyInt n) h = Inr (ts, h')"
  shows "Timestep_in h' ts"
proof -
  from assms obtain p h1 uc where
    p: "np_zeros [n, 3] F_order h = Inr (p, h1)" and
    uc: "np_zeros [6] C_order h1 = Inr (uc, h')" and
    v: "axis_views 0 n uc p h' = Inr (ts, h')"
    by (auto simp: axis_views_def split: sum.splits prod.splits)
  have "0 \<le> n" using p by (auto simp: np_zeros_def split: if_splits)
  then have "new_array F_order [nat n, 3] (replicate (nat n * 3) 0) h = (p, h1)"
    using p by (simp add: np_zeros_Inr)
  then have "array_in h1 p" by (intro new_array_in [where sh = "[nat n, 3]"]) simp_all
  moreover have n2: "new_array C_order [6] (replicate 6 0) h1 = (uc, h')"
    using uc by (simp add: np_zeros_Inr)
  moreover from n2 have "array_in h' uc" by (intro new_array_in [where sh = "[6]"]) simp_all
  ultimately have "array_in h' p" "array_in h' uc"
    using new_array_props(4) [OF n2] array_in_append by auto
  with v show ?thesis by (intro axis_views_in)
qed

lemma Timestep_init_copy_in:
  assumes "Timestep_init (PyTimestep f) h = Inr (ts, h')" "Timestep_in h f"
  shows "Timestep_in h' ts"
proof -
  obtain uc h1 where uc: "np_array (ts_unitcell f) h = (uc, h1)"
    by (cases "np_array (ts_unitcell f) h")
  obtain p h2 where p: "np_array (ts_pos f) h1 = (p, h2)"
    by (cases "np_array (ts_pos f) h1")
  have v: "axis_views (ts_frame f) (ts_numatoms f) uc p h2 = Inr (ts, h')"
    using assms(1) uc p by simp
  then have h': "h' = h2" by (auto simp: axis_views_def split: sum.splits)
  have au: "array_in h1 uc" and e1: "\<exists>b. h1 = h @ [b]"
    using np_array_in [OF uc] assms(2) by (simp_all add: Timestep_in_def)
  have "array_in h1 (ts_pos f)" using e1 assms(2) array_in_append by (auto simp: Timestep_in_def)
  then have ap: "array_in h2 p" and e2: "\<exists>b. h2 = h1 @ [b]"
    using np_array_in [OF p] by simp_all
  have "array_in h2 uc" using au e2 array_in_append by auto
  with v ap show ?thesis unfolding h' by (intro axis_views_in)
qed

lemma Timestep_init_ndarray_in:
  assumes "Timestep_init (PyNdarray a) h = Inr (ts, h')" "array_in h a"
  shows "Timestep_in h' ts"
proof -
  have two: "length (nd_shape a) = 2" using assms(1) by (auto split: if_splits)
  obtain uc h1 where n1: "new_array C_order [6] (replicate 6 0) h = (uc, h1)"
    by (cases "new_array C_order [6] (replicate 6 0) h")
  obtain p h2 where p: "np_copy F_order a h1 = (p, h2)"
    by (cases "np_copy F_order a h1")
  have "\<exists>n. axis_views 0 n uc p h2 = Inr (ts, h')"
    using assms(1) two n1 p by (auto simp: np_zeros_Inr Let_def)
  then obtain n where v: "axis_views 0 n uc p h2 = Inr (ts, h')" by blast
  then have h': "h' = h2" by (auto simp: axis_views_def split: sum.splits)
  have au: "array_in h1 uc" using n1 by (intro new_array_in [where sh = "[6]"]) simp_all
  have "array_in h1 a" using new_array_props(4) [OF n1] assms(2) array_in_append by auto
  then have ap: "array_in h2 p" and e2: "\<exists>b. h2 = h1 @ [b]"
    using np_copy_in [OF p] by simp_all
  have "array_in h2 uc" using au e2 array_in_append by auto
  with v ap show ?thesis unfolding h' by (intro axis_views_in)
qed

section \<open>Facts about the class namespace and in-place scaling\<close>

lemma IObase_namespace_time_to:
  "class_namespace IObase_body ''convert_time_to_native'' = None"
  by (simp add: class_namespace_def IObase_body_def)

lemma IObase_namespace_time_from:
  "class_namespace IObase_body ''convert_time_from_native'' = Some convert_time_from_native_l119"
  by (simp add: class_namespace_def IObase_body_def)

lemma scale_length: "length (fold (\<lambda>p b. b[p := b ! p * f]) cs b) = length b"
  by (induction cs arbitrary: b) simp_all

lemma scale_nth:
  fixes f :: real
  shows "p < length b \<Longrightarrow>
   fold (\<lambda>p b. b[p := b ! p * f]) cs b ! p = b ! p * f ^ count_list cs p"
proof (induction cs arbitrary: b)
  case Nil
  then show ?case by simp
next
  case (Cons c cs)
  have "p < length (b[c := b ! c * f])" using Cons.prems by simp
  from Cons.IH [OF this] Cons.prems show ?case
    by (cases "c = p") (simp_all add: mult.assoc)
qed

lemma scale_inverse:
  fixes f g :: real
  assumes "f * g = 1"
  shows "fold (\<lambda>p b. b[p := b ! p * g]) cs (fold (\<lambda>p b. b[p := b ! p * f]) cs b) = b"
proof (rule nth_equalityI)
  show "length (fold (\<lambda>p b. b[p := b ! p * g]) cs (fold (\<lambda>p b. b[p := b ! p * f]) cs b)) = length b"
    by (simp add: scale_length)
next
  fix p assume "p < length (fold (\<lambda>p b. b[p := b ! p * g]) cs (fold (\<lambda>p b. b[p := b ! p * f]) cs b))"
  then have p: "p < length b" by (simp add: scale_length)
  have "(f * g) ^ count_list cs p = 1" using assms by simp
  then have "f ^ count_list cs p * g ^ count_list cs p = 1" by (simp add: power_mult_distrib)
  then show "fold (\<lambda>p b. b[p := b ! p * g]) cs (fold (\<lambda>p b. b[p := b ! p * f]) cs b) ! p = b ! p"
    using p by (simp add: scale_nth scale_length mult.assoc)
qed

lemma imul_inverse:
  fixes f g :: real
  assumes "f * g = 1"
  shows "imul (imul h a f) a g = h"
proof (cases "nd_base a < length h")
  case True
  then show ?thesis using scale_inverse [OF assms] by (simp add: imul_def)
next
  case False
  then show ?thesis by (simp add: imul_def list_update_beyond not_less)
qed

lemma count_list_distinct: "distinct cs \<Longrightarrow> p \<in> set cs \<Longrightarrow> count_list cs p = 1"
  by (induction cs) (auto simp: count_list_0_iff)

lemma imul_ravel:
  assumes "array_in h a" "distinct (nd_cells a)"
  shows "ravel (imul h a f) a = map (\<lambda>v. v * f) (ravel h a)"
proof -
  have "fold (\<lambda>p b. b[p := b ! p * f]) (nd_cells a) (h ! nd_base a) ! p = h ! nd_base a ! p * f"
    if "p \<in> set (nd_cells a)" for p
  proof -
    have "p < length (h ! nd_base a)" using assms(1) that by (simp add: array_in_def)
    then show ?thesis
      using count_list_distinct [OF assms(2) that] by (simp add: scale_nth)
  qed
  then show ?thesis using assms(1) by (simp add: ravel_def imul_def array_in_def)
qed

section \<open>Properties of Timestep\<close>

subsection \<open>Allocation by atom count\<close>

text \<open>
  Claim C5. For every non-negative integer \<open>n\<close>, \<^verbatim>\<open>Timestep(n)\<close> succeeds; the new
  object reports length \<open>n\<close>, its position array has shape \<open>(n, 3)\<close> with every entry
  zero, and its six unit-cell entries are zero.
\<close>

theorem new_by_atom_count_zero_filled:
  assumes "0 \<le> n"
  shows "\<exists>ts h'. Timestep_init (PyInt n) h = Inr (ts, h')
      \<and> Timestep_len ts = n
      \<and> nd_shape (ts_pos ts) = [nat n, 3]
      \<and> ravel h' (ts_pos ts) = replicate (nat n * 3) 0
      \<and> ravel h' (ts_unitcell ts) = replicate 6 0"
proof -
  obtain p h1 where p: "new_array F_order [nat n, 3] (replicate (nat n * 3) 0) h = (p, h1)"
    by (cases "new_array F_order [nat n, 3] (replicate (nat n * 3) 0) h")
  obtain uc h2 where uc: "new_array C_order [6] (replicate 6 0) h1 = (uc, h2)"
    by (cases "new_array C_order [6] (replicate 6 0) h1")
  have z1: "np_zeros [n, 3] F_order h = Inr (p, h1)"
    using assms p by (simp add: np_zeros_Inr)
  have z2: "np_zeros [6] C_order h1 = Inr (uc, h2)"
    using uc by (simp add: np_zeros_Inr)
  have sh: "nd_shape p = [nat n, 3]" using p by (rule new_array_props)
  obtain x y z where
    v: "axis_views 0 n uc p h2 =
      Inr (\<lparr>ts_frame = 0, ts_numatoms = n, ts_pos = p, ts_unitcell = uc,
            ts_x = x, ts_y = y, ts_z = z\<rparr>, h2)"
    using axis_views_Inr [OF sh] by fastforce
  have "ravel h1 p = replicate (nat n * 3) 0"
    using p by (intro new_array_ravel [where sh = "[nat n, 3]"]) simp_all
  moreover have "h2 = h1 @ [scatter (layout C_order [6]) (replicate 6 0)]"
    using uc by (rule new_array_props)
  moreover have "nd_base p < length h1"
    using new_array_props(1,5) [OF p] by simp
  ultimately have rp: "ravel h2 p = replicate (nat n * 3) 0"
    by (simp add: ravel_append)
  have ru: "ravel h2 uc = replicate 6 0"
    using uc by (intro new_array_ravel [where sh = "[6]"]) simp_all
  show ?thesis
    using z1 z2 v sh rp ru by (simp add: Timestep_len_def)
qed

text \<open>Two atoms, allocated in the empty store.\<close>

theorem new_by_atom_count_zero_filled_witness:
  "\<exists>ts h'. Timestep_init (PyInt 2) [] = Inr (ts, h')
      \<and> Timestep_len ts = 2
      \<and> nd_shape (ts_pos ts) = [2, 3]
      \<and> ravel h' (ts_pos ts) = [0, 0, 0, 0, 0, 0]
      \<and> ravel h' (ts_unitcell ts) = [0, 0, 0, 0, 0, 0]"
  using new_by_atom_count_zero_filled [of 2 "[]"]
  by (simp add: numeral_eq_Suc)

subsection \<open>Adopting a two-dimensional buffer\<close>

text \<open>
  Claim C2. When \<^verbatim>\<open>Timestep(buf)\<close> succeeds on a two-dimensional buffer of shape
  \<open>(r, c)\<close>, the atom count of the new object is \<open>r\<close> if \<open>r = 3\<close> and \<open>c\<close>, the last
  dimension, otherwise.
\<close>

theorem new_from_matrix_numatoms:
  assumes "nd_shape buf = [r, c]" "Timestep_init (PyNdarray buf) h = Inr (ts, h')"
  shows "Timestep_len ts = int (if r = 3 then r else c)"
  using assms(2) unfolding Timestep_init_ndarray [OF assms(1)]
  by (auto simp: Timestep_len_def axis_views_def split: prod.splits sum.splits)

text \<open>A buffer of shape \<open>(2, 3)\<close>: the constructor reports three atoms.\<close>

theorem new_from_matrix_numatoms_witness:
  "\<exists>ts h'. Timestep_init (PyNdarray \<lparr>nd_base = 0, nd_shape = [2, 3], nd_cells = [0, 1, 2, 3, 4, 5]\<rparr>)
      [[1, 2, 3, 4, 5, 6]] = Inr (ts, h') \<and> Timestep_len ts = 3"
proof -
  let ?b = "\<lparr>nd_base = 0, nd_shape = [2, 3], nd_cells = [0, 1, 2, 3, 4, 5]\<rparr>"
  obtain ts h' where i: "Timestep_init (PyNdarray ?b) [[1, 2, 3, 4, 5, 6]] = Inr (ts, h')"
    using Timestep_init_ndarray_Inr [of "[[1, 2, 3, 4, 5, 6]]" ?b 2 3]
    by (auto simp: array_in_def)
  have "nd_shape ?b = [2, 3]" by simp
  then have "Timestep_len ts = int (if (2::nat) = 3 then 2 else 3)"
    using i by (rule new_from_matrix_numatoms)
  with i show ?thesis by simp
qed

text \<open>
  Claim C9, as the code has it. A buffer whose number of dimensions is not two is
  rejected with \<^verbatim>\<open>ValueError\<close>. A two-dimensional buffer of the store with at least three
  columns is accepted: \<^verbatim>\<open>_pos\<close> is a copy in a buffer of its own, with the shape and the
  values of the argument, laid out column-major (element \<open>(i, j)\<close> at position
  \<open>i + r * j\<close>).
\<close>

theorem new_from_matrix_shape:
  "(length (nd_shape buf) \<noteq> 2 \<longrightarrow>
      Timestep_init (PyNdarray buf) h = Inl (ValueError ''numpy array can only have 2 dimensions''))
   \<and> (array_in h buf \<and> nd_shape buf = [r, c] \<and> 3 \<le> c \<longrightarrow>
      (\<exists>ts h'. Timestep_init (PyNdarray buf) h = Inr (ts, h')
         \<and> length h \<le> nd_base (ts_pos ts)
         \<and> nd_shape (ts_pos ts) = [r, c]
         \<and> nd_cells (ts_pos ts) = map (\<lambda>(i, j). i + r * j) (List.product [0..<r] [0..<c])
         \<and> ravel h' (ts_pos ts) = ravel h buf))"
  using Timestep_init_ndarray_Inr [of h buf r c] by simp

text \<open>A one-dimensional buffer is rejected; a buffer of shape \<open>(2, 3)\<close> is adopted.\<close>

theorem new_from_matrix_shape_witness:
  "Timestep_init (PyNdarray \<lparr>nd_base = 0, nd_shape = [3], nd_cells = [0, 1, 2]\<rparr>) [[7, 8, 9]]
     = Inl (ValueError ''numpy array can only have 2 dimensions'')
   \<and> (\<exists>ts h'. Timestep_init (PyNdarray \<lparr>nd_base = 0, nd_shape = [2, 3], nd_cells = [0, 1, 2, 3, 4, 5]\<rparr>)
          [[1, 2, 3, 4, 5, 6]] = Inr (ts, h')
        \<and> 1 \<le> nd_base (ts_pos ts)
        \<and> nd_shape (ts_pos ts) = [2, 3]
        \<and> nd_cells (ts_pos ts) = [0, 2, 4, 1, 3, 5]
        \<and> ravel h' (ts_pos ts) = [1, 2, 3, 4, 5, 6])"
  using new_from_matrix_shape [of "\<lparr>nd_base = 0, nd_shape = [3], nd_cells = [0, 1, 2]\<rparr>" "[[7, 8, 9]]" 0 0]
    new_from_matrix_shape [of "\<lparr>nd_base = 0, nd_shape = [2, 3], nd_cells = [0, 1, 2, 3, 4, 5]\<rparr>"
      "[[1, 2, 3, 4, 5, 6]]" 2 3]
  by (simp add: array_in_def ravel_def upt_rec eval_nat_numeral)

text \<open>
  A two-dimensional buffer with two columns is not adopted: taking the view \<^verbatim>\<open>_pos[:,2]\<close>
  raises \<^verbatim>\<open>IndexError\<close>.
\<close>

theorem new_from_matrix_narrow_counterexample:
  "Timestep_init (PyNdarray \<lparr>nd_base = 0, nd_shape = [2, 2], nd_cells = [0, 1, 2, 3]\<rparr>)
      [[1, 2, 3, 4]] = Inl IndexError"
  by (simp add: np_zeros_def new_array_def np_copy_def axis_views_def getitem_col_def Let_def)

subsection \<open>Unit-cell dimensions\<close>

text \<open>
  Claim C3. When \<^verbatim>\<open>_unitcell\<close> holds \<open>[A, alpha, B, beta, gamma, C]\<close>, the property
  \<^verbatim>\<open>dimensions\<close> returns a new array holding \<open>[A, B, C, alpha, beta, gamma]\<close>.
\<close>

theorem dimensions_reorder:
  assumes "ravel h (ts_unitcell f) = [A, alpha, B, beta, gamma, C]"
  shows "\<exists>d h'. Timestep_dimensions f h = Inr (d, h')
      \<and> nd_shape d = [6]
      \<and> ravel h' d = [A, B, C, alpha, beta, gamma]"
proof -
  let ?vs = "[A, B, C, alpha, beta, gamma]"
  obtain d h' where d: "new_array C_order [length ?vs] ?vs h = (d, h')"
    by (cases "new_array C_order [length ?vs] ?vs h")
  have "Timestep_dimensions f h = Inr (d, h')"
    using assms d by (simp add: Timestep_dimensions_def np_take_def)
  moreover have "nd_shape d = [6]" using new_array_props(2) [OF d] by simp
  moreover have "ravel h' d = ?vs"
    using d by (intro new_array_ravel [where sh = "[length ?vs]"]) simp_all
  ultimately show ?thesis by simp
qed

text \<open>The unit cell \<open>[1, 2, 3, 4, 5, 6]\<close> gives the dimensions \<open>[1, 3, 6, 2, 4, 5]\<close>.\<close>

theorem dimensions_reorder_witness:
  "\<exists>d h'. Timestep_dimensions
       \<lparr>ts_frame = 0, ts_numatoms = 0,
        ts_pos = \<lparr>nd_base = 0, nd_shape = [0, 3], nd_cells = []\<rparr>,
        ts_unitcell = \<lparr>nd_base = 1, nd_shape = [6], nd_cells = [0, 1, 2, 3, 4, 5]\<rparr>,
        ts_x = \<lparr>nd_base = 0, nd_shape = [0], nd_cells = []\<rparr>,
        ts_y = \<lparr>nd_base = 0, nd_shape = [0], nd_cells = []\<rparr>,
        ts_z = \<lparr>nd_base = 0, nd_shape = [0], nd_cells = []\<rparr>\<rparr>
       [[], [1, 2, 3, 4, 5, 6]] = Inr (d, h')
     \<and> nd_shape d = [6]
     \<and> ravel h' d = [1, 3, 6, 2, 4, 5]"
  using dimensions_reorder [of "[[], [1, 2, 3, 4, 5, 6]]"
      "\<lparr>ts_frame = 0, ts_numatoms = 0,
        ts_pos = \<lparr>nd_base = 0, nd_shape = [0, 3], nd_cells = []\<rparr>,
        ts_unitcell = \<lparr>nd_base = 1, nd_shape = [6], nd_cells = [0, 1, 2, 3, 4, 5]\<rparr>,
        ts_x = \<lparr>nd_base = 0, nd_shape = [0], nd_cells = []\<rparr>,
        ts_y = \<lparr>nd_base = 0, nd_shape = [0], nd_cells = []\<rparr>,
        ts_z = \<lparr>nd_base = 0, nd_shape = [0], nd_cells = []\<rparr>\<rparr>" 1 2 3 4 5 6]
  by (simp add: ravel_def)

subsection \<open>Indexing by atom\<close>




subsection \<open>Iteration\<close>




subsection \<open>Indexing by slice and by index array\<close>

text \<open>
  Claim C10, as the code has it. For an object whose position array, of \<open>r\<close> rows, is
  an array of the store:
  \<^item> indexing with a slice never raises \<^verbatim>\<open>IndexError\<close>, whatever its bounds. For a step
    other than zero, with \<open>(s, e, stp)\<close> the clamped start, stop and step, it returns,
    without touching the store, a view into the buffer of \<^verbatim>\<open>_pos\<close>, made of cells of
    \<^verbatim>\<open>_pos\<close>, with at most \<open>r\<close> rows; the rows are the rows \<open>s + k * stp\<close> of \<^verbatim>\<open>_pos\<close>, all
    of them existing rows, and in every later store the view reads what \<^verbatim>\<open>_pos\<close> holds
    in those rows then.
  \<^item> indexing with an index array raises \<^verbatim>\<open>IndexError\<close> when an index lies outside
    \<open>[- r, r)\<close>. Otherwise it appends one buffer to the store and returns an array in
    that buffer holding the selected rows of \<^verbatim>\<open>_pos\<close>, one per index; \<^verbatim>\<open>_pos\<close> holds
    what it held, overwriting the buffer of \<^verbatim>\<open>_pos\<close> leaves the returned rows as they
    are, and overwriting the new buffer leaves \<^verbatim>\<open>_pos\<close> as it is.
\<close>

theorem get_range_slice_view_array_copy:
  assumes "array_in h (ts_pos f)" "nd_shape (ts_pos f) = r # ds"
  shows "Timestep_getitem f (IdxSlice sl) h \<noteq> Inl IndexError
    \<and> (step \<noteq> Some 0 \<longrightarrow>
         (\<exists>s e stp v. slice_indices (Slice start stop step) r = Inr (s, e, stp)
            \<and> Timestep_getitem f (IdxSlice (Slice start stop step)) h = Inr (v, h)
            \<and> nd_base v = nd_base (ts_pos f)
            \<and> set (nd_cells v) \<subseteq> set (nd_cells (ts_pos f))
            \<and> nd_shape v = slice_len s e stp # ds
            \<and> slice_len s e stp \<le> r
            \<and> (\<forall>k < slice_len s e stp. 0 \<le> s + int k * stp \<and> s + int k * stp < int r)
            \<and> (\<forall>h2. ravel h2 v = concat (map (\<lambda>k. take (prod_list ds)
                  (drop (nat (s + int k * stp) * prod_list ds) (ravel h2 (ts_pos f))))
                  [0..<slice_len s e stp]))))
    \<and> ((\<exists>i \<in> set idx. i < - int r \<or> int r \<le> i) \<longrightarrow>
         Timestep_getitem f (IdxArray idx) h = Inl IndexError)
    \<and> (\<not> (\<exists>i \<in> set idx. i < - int r \<or> int r \<le> i) \<longrightarrow>
         (\<exists>v b. Timestep_getitem f (IdxArray idx) h = Inr (v, h @ [b])
            \<and> nd_base v = length h
            \<and> nd_shape v = length idx # ds
            \<and> ravel (h @ [b]) v = concat (map (\<lambda>i. take (prod_list ds)
                  (drop (nat (if i < 0 then i + int r else i) * prod_list ds)
                     (ravel h (ts_pos f)))) idx)
            \<and> ravel (h @ [b]) (ts_pos f) = ravel h (ts_pos f)
            \<and> (\<forall>d. ravel ((h @ [b])[nd_base (ts_pos f) := d]) v = ravel (h @ [b]) v)
            \<and> (\<forall>d. ravel ((h @ [b])[nd_base v := d]) (ts_pos f) = ravel h (ts_pos f))))"
proof (intro conjI impI)
  show "Timestep_getitem f (IdxSlice sl) h \<noteq> Inl IndexError"
  proof (cases "slice_indices sl r")
    case (Inl e)
    then have "e \<noteq> IndexError" using slice_indices_error [of sl r] by auto
    then show ?thesis using Inl assms(2) by (simp add: getitem_slice_def)
  next
    case (Inr t)
    obtain s e stp where "t = (s, e, stp)" by (cases t)
    with Inr getitem_slice_rows [OF assms(2), of sl s e stp]
    obtain v where "getitem_slice (ts_pos f) sl = Inr v" by auto
    then show ?thesis by simp
  qed
next
  assume "step \<noteq> Some 0"
  then obtain s e stp where si: "slice_indices (Slice start stop step) r = Inr (s, e, stp)"
    using slice_indices_Inr by blast
  from getitem_slice_rows [OF assms(2) si]
  obtain v where v: "getitem_slice (ts_pos f) (Slice start stop step) = Inr v"
    "nd_base v = nd_base (ts_pos f)" "nd_shape v = slice_len s e stp # ds"
    "set (nd_cells v) \<subseteq> set (nd_cells (ts_pos f))"
    "\<forall>h2. ravel h2 v = concat (map (\<lambda>k. take (prod_list ds)
            (drop (nat (s + int k * stp) * prod_list ds) (ravel h2 (ts_pos f))))
            [0..<slice_len s e stp])"
    by blast
  have le: "slice_len s e stp \<le> r" using si by (rule slice_len_le)
  have rng: "\<forall>k < slice_len s e stp. 0 \<le> s + int k * stp \<and> s + int k * stp < int r"
    using slice_rows_in_range [OF si] by blast
  have g: "Timestep_getitem f (IdxSlice (Slice start stop step)) h = Inr (v, h)"
    using v(1) by simp
  show "\<exists>s e stp v. slice_indices (Slice start stop step) r = Inr (s, e, stp)
            \<and> Timestep_getitem f (IdxSlice (Slice start stop step)) h = Inr (v, h)
            \<and> nd_base v = nd_base (ts_pos f)
            \<and> set (nd_cells v) \<subseteq> set (nd_cells (ts_pos f))
            \<and> nd_shape v = slice_len s e stp # ds
            \<and> slice_len s e stp \<le> r
            \<and> (\<forall>k < slice_len s e stp. 0 \<le> s + int k * stp \<and> s + int k * stp < int r)
            \<and> (\<forall>h2. ravel h2 v = concat (map (\<lambda>k. take (prod_list ds)
                  (drop (nat (s + int k * stp) * prod_list ds) (ravel h2 (ts_pos f))))
                  [0..<slice_len s e stp]))"
    using si g v(2,3,4,5) le rng by blast
next
  assume "\<exists>i \<in> set idx. i < - int r \<or> int r \<le> i"
  then show "Timestep_getitem f (IdxArray idx) h = Inl IndexError"
    using getitem_array_cases(1) [OF assms(2)] by simp
next
  assume rng: "\<not> (\<exists>i \<in> set idx. i < - int r \<or> int r \<le> i)"
  from getitem_array_copy [OF assms rng]
  obtain v b where g: "getitem_array (ts_pos f) idx h = Inr (v, h @ [b])"
    and bv: "nd_base v = length h" and sv: "nd_shape v = length idx # ds"
    and rv: "ravel (h @ [b]) v = concat (map (\<lambda>i. take (prod_list ds)
          (drop (nat (if i < 0 then i + int r else i) * prod_list ds) (ravel h (ts_pos f)))) idx)"
    by blast
  have bp: "nd_base (ts_pos f) < length h" using assms(1) by (simp add: array_in_def)
  have keep: "ravel (h @ [b]) (ts_pos f) = ravel h (ts_pos f)" using bp by (rule ravel_append)
  have i1: "\<forall>d. ravel ((h @ [b])[nd_base (ts_pos f) := d]) v = ravel (h @ [b]) v"
    using bp bv by (simp add: ravel_update_other)
  have i2: "\<forall>d. ravel ((h @ [b])[nd_base v := d]) (ts_pos f) = ravel h (ts_pos f)"
    using bp bv by (simp add: ravel_append)
  have g': "Timestep_getitem f (IdxArray idx) h = Inr (v, h @ [b])" using g by simp
  show "\<exists>v b. Timestep_getitem f (IdxArray idx) h = Inr (v, h @ [b])
            \<and> nd_base v = length h
            \<and> nd_shape v = length idx # ds
            \<and> ravel (h @ [b]) v = concat (map (\<lambda>i. take (prod_list ds)
                  (drop (nat (if i < 0 then i + int r else i) * prod_list ds)
                     (ravel h (ts_pos f)))) idx)
            \<and> ravel (h @ [b]) (ts_pos f) = ravel h (ts_pos f)
            \<and> (\<forall>d. ravel ((h @ [b])[nd_base (ts_pos f) := d]) v = ravel (h @ [b]) v)
            \<and> (\<forall>d. ravel ((h @ [b])[nd_base v := d]) (ts_pos f) = ravel h (ts_pos f))"
    using g' bv sv rv keep i1 i2 by blast
qed

text \<open>
  In the example frame the slice \<^verbatim>\<open>1:100\<close> is a view of the second atom in buffer 0
  and shows the doubled coordinates once \<^verbatim>\<open>_pos\<close> is doubled in place; the index array
  \<open>[0, 2]\<close> raises, and the index array \<open>[-1, 0]\<close> gives both atoms in the new buffer
  2, unchanged when the buffer of \<^verbatim>\<open>_pos\<close> is zeroed.
\<close>

theorem get_range_slice_view_array_copy_witness:
  "Timestep_getitem example_frame (IdxSlice (Slice (Some 1) (Some 100) None)) example_heap
      \<noteq> Inl IndexError
   \<and> (\<exists>v. Timestep_getitem example_frame (IdxSlice (Slice (Some 1) (Some 100) None)) example_heap
          = Inr (v, example_heap)
        \<and> nd_base v = 0 \<and> nd_shape v = [1, 3]
        \<and> ravel example_heap v = [4, 5, 6]
        \<and> ravel (imul example_heap (ts_pos example_frame) 2) v = [8, 10, 12])
   \<and> Timestep_getitem example_frame (IdxArray [0, 2]) example_heap = Inl IndexError
   \<and> (\<exists>v b. Timestep_getitem example_frame (IdxArray [- 1, 0]) example_heap
          = Inr (v, example_heap @ [b])
        \<and> nd_base v = 2 \<and> nd_shape v = [2, 3]
        \<and> ravel (example_heap @ [b]) v = [4, 5, 6, 1, 2, 3]
        \<and> ravel ((example_heap @ [b])[0 := [0, 0, 0, 0, 0, 0]]) v = [4, 5, 6, 1, 2, 3])"
proof -
  have ok: "array_in example_heap (ts_pos example_frame)" by (simp add: array_in_def)
  have sh: "nd_shape (ts_pos example_frame) = [2, 3]" by simp
  note t1 = get_range_slice_view_array_copy [OF ok sh, of "Slice (Some 1) (Some 100) None" None "Some 1" "Some 100" "[0, 2]"]
  note t2 = get_range_slice_view_array_copy [OF ok sh, of "Slice None None None" None None None "[- 1, 0]"]
  have si: "slice_indices (Slice (Some 1) (Some 100) None) 2 = Inr (1, 2, 1)"
    by (simp add: Let_def)
  have sl: "slice_len 1 2 1 = 1" by (simp add: slice_len_def)
  from t1 si obtain v where
    v: "Timestep_getitem example_frame (IdxSlice (Slice (Some 1) (Some 100) None)) example_heap
          = Inr (v, example_heap)"
      "nd_base v = nd_base (ts_pos example_frame)" "nd_shape v = slice_len 1 2 1 # [3]"
      "\<forall>h2. ravel h2 v = concat (map (\<lambda>k. take (prod_list [3])
          (drop (nat (1 + int k * 1) * prod_list [3]) (ravel h2 (ts_pos example_frame))))
          [0..<slice_len 1 2 1])"
    by auto
  have r1: "ravel example_heap v = [4, 5, 6]"
    using v(4) by (simp add: sl ravel_def)
  have r2: "ravel (imul example_heap (ts_pos example_frame) 2) v = [8, 10, 12]"
    using v(4) by (simp add: sl ravel_def imul_def)
  have c1: "Timestep_getitem example_frame (IdxSlice (Slice (Some 1) (Some 100) None)) example_heap
      \<noteq> Inl IndexError"
    using t1 by blast
  have c3: "Timestep_getitem example_frame (IdxArray [0, 2]) example_heap = Inl IndexError"
    using t1 by simp
  from t2 obtain w b where
    w: "Timestep_getitem example_frame (IdxArray [- 1, 0]) example_heap = Inr (w, example_heap @ [b])"
      "nd_base w = length example_heap" "nd_shape w = length [- 1, 0 :: int] # [3]"
      "ravel (example_heap @ [b]) w = concat (map (\<lambda>i. take (prod_list [3])
          (drop (nat (if i < 0 then i + int 2 else i) * prod_list [3])
             (ravel example_heap (ts_pos example_frame)))) [- 1, 0])"
      "\<forall>d. ravel ((example_heap @ [b])[nd_base (ts_pos example_frame) := d]) w
          = ravel (example_heap @ [b]) w"
    by auto
  have r3: "ravel (example_heap @ [b]) w = [4, 5, 6, 1, 2, 3]"
    using w(4) by (simp add: ravel_def)
  have r4: "ravel ((example_heap @ [b])[0 := [0, 0, 0, 0, 0, 0]]) w = [4, 5, 6, 1, 2, 3]"
    using w(5) r3 by simp
  have "\<exists>v. Timestep_getitem example_frame (IdxSlice (Slice (Some 1) (Some 100) None)) example_heap
          = Inr (v, example_heap)
        \<and> nd_base v = 0 \<and> nd_shape v = [1, 3]
        \<and> ravel example_heap v = [4, 5, 6]
        \<and> ravel (imul example_heap (ts_pos example_frame) 2) v = [8, 10, 12]"
    using v(1,2,3) r1 r2 by (simp add: sl)
  moreover have "\<exists>v b. Timestep_getitem example_frame (IdxArray [- 1, 0]) example_heap
          = Inr (v, example_heap @ [b])
        \<and> nd_base v = 2 \<and> nd_shape v = [2, 3]
        \<and> ravel (example_heap @ [b]) v = [4, 5, 6, 1, 2, 3]
        \<and> ravel ((example_heap @ [b])[0 := [0, 0, 0, 0, 0, 0]]) v = [4, 5, 6, 1, 2, 3]"
    using w(1,2,3) r3 r4 by auto
  ultimately show ?thesis using c1 c3 by blast
qed

text \<open>
  In the example frame of two atoms the index array \<open>[5]\<close> raises \<^verbatim>\<open>IndexError\<close>, and the
  index array \<open>[1]\<close> returns the second atom in a buffer of its own.
\<close>

theorem get_range_index_array_counterexample:
  "Timestep_getitem example_frame (IdxArray [5]) example_heap = Inl IndexError
   \<and> Timestep_getitem example_frame (IdxArray [1]) example_heap
     = Inr (\<lparr>nd_base = 2, nd_shape = [1, 3], nd_cells = [0, 1, 2]\<rparr>,
            [[1, 4, 2, 5, 3, 6], [10, 90, 20, 90, 90, 30], [4, 5, 6]])"
  by (simp add: getitem_array_def new_array_def scatter_def Let_def upt_rec eval_nat_numeral)

subsection \<open>Copying\<close>

text \<open>
  Claim C6. For every object \<open>f\<close> in the state its constructor leaves it in,
  \<^verbatim>\<open>f.copy()\<close>, that is \<^verbatim>\<open>Timestep(f)\<close>, succeeds with an object \<open>g\<close> that has the frame
  number, atom count, positions and unit cell of \<open>f\<close>, and leaves what \<open>f\<close> holds
  untouched. Afterwards the two share no buffer: replacing the contents of any buffer
  behind an array of \<open>g\<close>, by whatever data, changes nothing that \<open>f\<close> holds, and the
  other way round.
\<close>

theorem copy_independent:
  assumes "Timestep_in h f"
  shows "\<exists>g h'. Timestep_copy f h = Inr (g, h')
      \<and> ts_frame g = ts_frame f \<and> ts_numatoms g = ts_numatoms f
      \<and> nd_shape (ts_pos g) = nd_shape (ts_pos f)
      \<and> ravel h' (ts_pos g) = ravel h (ts_pos f)
      \<and> ravel h' (ts_unitcell g) = ravel h (ts_unitcell f)
      \<and> Timestep_values h' f = Timestep_values h f
      \<and> (\<forall>a \<in> set (Timestep_arrays g). \<forall>d.
            Timestep_values (h'[nd_base a := d]) f = Timestep_values h' f)
      \<and> (\<forall>a \<in> set (Timestep_arrays f). \<forall>d.
            Timestep_values (h'[nd_base a := d]) g = Timestep_values h' g)"
proof -
  have wfp: "length (nd_cells (ts_pos f)) = prod_list (nd_shape (ts_pos f))"
    and wfu: "length (nd_cells (ts_unitcell f)) = prod_list (nd_shape (ts_unitcell f))"
    and bu: "nd_base (ts_unitcell f) < length h" and bp: "nd_base (ts_pos f) < length h"
    using assms by (simp_all add: Timestep_in_def array_in_def)
  obtain uc h1 where uc: "np_array (ts_unitcell f) h = (uc, h1)"
    by (cases "np_array (ts_unitcell f) h")
  obtain p h2 where p: "np_array (ts_pos f) h1 = (p, h2)"
    by (cases "np_array (ts_pos f) h1")
  note ucp = np_array_props [OF uc wfu]
  note pp = np_array_props [OF p wfp]
  obtain b1 where h1: "h1 = h @ [b1]" using ucp(5) by blast
  obtain b2 where h2: "h2 = h1 @ [b2]" using pp(5) by blast
  have "getitem_col (ts_pos f) 2 = Inr (ts_z f)" using assms by (simp add: Timestep_in_def)
  then obtain d0 d1 ds where sh: "nd_shape (ts_pos f) = d0 # d1 # ds" and d1: "2 < d1"
    using getitem_col_Inr(2) by blast
  have shp: "nd_shape p = d0 # d1 # ds" using pp(2) sh by simp
  have "3 \<le> d1" using d1 by simp
  from axis_views_Inr [OF shp this, of "ts_frame f" "ts_numatoms f" uc h2]
  obtain x y z where
    v: "axis_views (ts_frame f) (ts_numatoms f) uc p h2 =
      Inr (\<lparr>ts_frame = ts_frame f, ts_numatoms = ts_numatoms f, ts_pos = p,
            ts_unitcell = uc, ts_x = x, ts_y = y, ts_z = z\<rparr>, h2)"
    and cx: "getitem_col p 0 = Inr x" and cy: "getitem_col p 1 = Inr y"
    and cz: "getitem_col p 2 = Inr z"
    by blast
  define g where "g = \<lparr>ts_frame = ts_frame f, ts_numatoms = ts_numatoms f, ts_pos = p,
            ts_unitcell = uc, ts_x = x, ts_y = y, ts_z = z\<rparr>"
  have copy: "Timestep_copy f h = Inr (g, h2)"
    using uc p v by (simp add: Timestep_copy_def g_def)
  have bases_g: "\<forall>a \<in> set (Timestep_arrays g). length h \<le> nd_base a \<and> nd_base a < length h2"
    using ucp(1,3) pp(1,3) getitem_col_Inr(1) [OF cx] getitem_col_Inr(1) [OF cy]
      getitem_col_Inr(1) [OF cz]
    by (simp add: Timestep_arrays_def g_def)
  have bases_f: "\<forall>a \<in> set (Timestep_arrays f). nd_base a < length h"
    using Timestep_in_bases [OF assms] by blast
  have "ravel (h @ [b1]) (ts_pos f) = ravel h (ts_pos f)" using bp by (rule ravel_append)
  then have r1: "ravel h2 p = ravel h (ts_pos f)"
    using pp(4) by (simp only: h1)
  have "nd_base uc < length h1" using ucp(1,3) by simp
  then have "ravel (h1 @ [b2]) uc = ravel h1 uc" by (rule ravel_append)
  then have r2: "ravel h2 uc = ravel h (ts_unitcell f)"
    using ucp(4) by (simp only: h2)
  have keep: "Timestep_values h2 f = Timestep_values h f"
    using Timestep_values_append [OF assms, of "[b1, b2]"] by (simp add: h1 h2)
  have ind1: "\<forall>a \<in> set (Timestep_arrays g). \<forall>d.
      Timestep_values (h2[nd_base a := d]) f = Timestep_values h2 f"
  proof (intro ballI allI)
    fix a d assume "a \<in> set (Timestep_arrays g)"
    then have "length h \<le> nd_base a" using bases_g by blast
    then have "\<forall>c \<in> set (Timestep_arrays f). nd_base c \<noteq> nd_base a"
      using bases_f by fastforce
    then show "Timestep_values (h2[nd_base a := d]) f = Timestep_values h2 f"
      by (rule Timestep_values_update)
  qed
  have ind2: "\<forall>a \<in> set (Timestep_arrays f). \<forall>d.
      Timestep_values (h2[nd_base a := d]) g = Timestep_values h2 g"
  proof (intro ballI allI)
    fix a d assume "a \<in> set (Timestep_arrays f)"
    then have "nd_base a < length h" using bases_f by blast
    then have "\<forall>c \<in> set (Timestep_arrays g). nd_base c \<noteq> nd_base a"
      using bases_g by fastforce
    then show "Timestep_values (h2[nd_base a := d]) g = Timestep_values h2 g"
      by (rule Timestep_values_update)
  qed
  have fields: "ts_frame g = ts_frame f" "ts_numatoms g = ts_numatoms f"
    "ts_pos g = p" "ts_unitcell g = uc"
    by (simp_all add: g_def)
  show ?thesis
    using copy fields pp(2) r1 r2 keep ind1 ind2 by auto
qed

text \<open>
  The example frame and its copy: zeroing the position buffer of either leaves the
  other as it was.
\<close>

theorem copy_independent_witness:
  "\<exists>g h'. Timestep_copy example_frame example_heap = Inr (g, h')
      \<and> ravel h' (ts_pos g) = [1, 2, 3, 4, 5, 6]
      \<and> ravel h' (ts_unitcell g) = [10, 90, 20, 90, 90, 30]
      \<and> Timestep_values (h'[nd_base (ts_pos g) := [0, 0, 0, 0, 0, 0]]) example_frame
          = Timestep_values example_heap example_frame
      \<and> Timestep_values (h'[nd_base (ts_pos example_frame) := [0, 0, 0, 0, 0, 0]]) g
          = Timestep_values h' g"
proof -
  have "Timestep_in example_heap example_frame"
    by (simp add: Timestep_in_def array_in_def getitem_col_def upt_rec eval_nat_numeral)
  from copy_independent [OF this]
  obtain g h' where c: "Timestep_copy example_frame example_heap = Inr (g, h')"
    and p: "ravel h' (ts_pos g) = ravel example_heap (ts_pos example_frame)"
    and u: "ravel h' (ts_unitcell g) = ravel example_heap (ts_unitcell example_frame)"
    and k: "Timestep_values h' example_frame = Timestep_values example_heap example_frame"
    and i1: "\<forall>a \<in> set (Timestep_arrays g). \<forall>d.
        Timestep_values (h'[nd_base a := d]) example_frame = Timestep_values h' example_frame"
    and i2: "\<forall>a \<in> set (Timestep_arrays example_frame). \<forall>d.
        Timestep_values (h'[nd_base a := d]) g = Timestep_values h' g"
    by blast
  have "ts_pos g \<in> set (Timestep_arrays g)" by (simp add: Timestep_arrays_def)
  with i1 k have a: "Timestep_values (h'[nd_base (ts_pos g) := [0, 0, 0, 0, 0, 0]]) example_frame
      = Timestep_values example_heap example_frame"
    by simp
  have "ts_pos example_frame \<in> set (Timestep_arrays example_frame)"
    by (simp add: Timestep_arrays_def)
  with i2 have b: "Timestep_values (h'[nd_base (ts_pos example_frame) := [0, 0, 0, 0, 0, 0]]) g
      = Timestep_values h' g"
    by blast
  have "ravel h' (ts_pos g) = [1, 2, 3, 4, 5, 6]" using p by (simp add: ravel_def)
  moreover have "ravel h' (ts_unitcell g) = [10, 90, 20, 90, 90, 30]" using u by (simp add: ravel_def)
  ultimately show ?thesis using c a b by blast
qed

section \<open>Properties of IObase\<close>

subsection \<open>Time conversion\<close>

text \<open>
  Claim C1 asks for two time conversions, from native units and to native units. The
  class body binds \<^verbatim>\<open>convert_time_from_native\<close> twice and \<^verbatim>\<open>convert_time_to_native\<close> never:
  a call of \<^verbatim>\<open>convert_time_to_native\<close> raises \<^verbatim>\<open>AttributeError\<close>, and
  \<^verbatim>\<open>convert_time_from_native\<close> runs the second definition, which scales by the factor from
  the base unit to the native unit. For a reader in nanoseconds under a base unit of
  picoseconds, two nanoseconds come out as 0.002 where the first definition gives 2000.
\<close>

theorem convert_time_from_native_overridden:
  "IObase_call ''convert_time_to_native'' self env t h = Inl (AttributeError ''convert_time_to_native'')
   \<and> IObase_call ''convert_time_from_native'' self env t h = convert_time_from_native_l119 self env t h
   \<and> IObase_call ''convert_time_from_native'' example_reader example_core (Float 2) []
       = Inr (Float (2 / 1000), [])
   \<and> convert_time_from_native_l107 example_reader example_core (Float 2) []
       = Inr (Float 2000, [])"
  by (simp add: IObase_call_def IObase_namespace_time_to IObase_namespace_time_from
      convert_time_from_native_l119_def convert_time_from_native_l107_def lookup_def)

subsection \<open>Position conversion\<close>

text \<open>
  Claim C7. When the registry's factor from the base unit to the native unit is the
  inverse of the nonzero factor \<open>f\<close> from the native unit to the base unit,
  \<^verbatim>\<open>convert_pos_from_native\<close> followed by \<^verbatim>\<open>convert_pos_to_native\<close> on the same array
  restores the whole store, so the array holds its original values; in between, an
  array of the store with distinct cells holds its values scaled by \<open>f\<close>.
\<close>

theorem position_roundtrip:
  assumes "units self ''length'' = Some u" "flags env ''length_unit'' = Some b"
    and "get_conversion_factor env ''length'' u b = Inr f"
    and "get_conversion_factor env ''length'' b u = Inr (1 / f)"
    and "f \<noteq> 0"
  shows "\<exists>h1. convert_pos_from_native self env (Array x) h = Inr (Array x, h1)
      \<and> (array_in h x \<and> distinct (nd_cells x) \<longrightarrow> ravel h1 x = map (\<lambda>v. v * f) (ravel h x))
      \<and> convert_pos_to_native self env (Array x) h1 = Inr (Array x, h)"
proof -
  have "f * (1 / f) = 1" using assms(5) by simp
  then have "imul (imul h x f) x (1 / f) = h" by (rule imul_inverse)
  then show ?thesis
    using assms
    by (simp add: convert_pos_from_native_def convert_pos_to_native_def lookup_def imul_ravel)
qed

text \<open>The positions of the example frame, from nanometres to Angstrom and back.\<close>

theorem position_roundtrip_witness:
  "\<exists>h1. convert_pos_from_native example_reader example_core (Array (ts_pos example_frame)) example_heap
        = Inr (Array (ts_pos example_frame), h1)
      \<and> ravel h1 (ts_pos example_frame) = [10, 20, 30, 40, 50, 60]
      \<and> convert_pos_to_native example_reader example_core (Array (ts_pos example_frame)) h1
        = Inr (Array (ts_pos example_frame), example_heap)"
  using position_roundtrip [of example_reader "Some ''nm''" example_core "Some ''Angstrom''" 10
      "ts_pos example_frame" example_heap]
  by (auto simp: array_in_def ravel_def)

end
